theory Spec2Isabelle
  imports Complex_Main "HOL-Library.Word"
begin

section \<open>Errors and JavaScript values\<close>

text \<open>
  A rejected promise or a thrown exception is a value of type \<open>error\<close>:
  \<^item> \<open>TypeError\<close> is the engine reading \<open>roundSums.roundDelegates\<close> when \<open>roundSums\<close> is
    \<open>null\<close>;
  \<^item> \<open>ModuleError msg\<close> is \<open>throw new Error(msg)\<close> written in the module itself;
  \<^item> \<open>Rejected msg\<close> is a value with message \<open>msg\<close> coming out of an injected
    collaborator (a model, a logic class, the database helper, the bus);
  \<^item> \<open>RejectedValueless\<close> is a collaborator rejecting with \<open>null\<close> or \<open>undefined\<close>, as
    \<open>Promise.reject()\<close> does;
  \<^item> \<open>TypeError_message\<close> is the \<open>catch\<close> of \<open>innerTick\<close> reading \<open>e.message\<close> when \<open>e\<close>
    is \<open>null\<close> or \<open>undefined\<close>.
\<close>

datatype error = TypeError | ModuleError string | Rejected string | RejectedValueless
  | TypeError_message

text \<open>
  What a collaborator of the rounds module rejects with: a value that has a message, or
  \<open>null\<close> or \<open>undefined\<close>. \<open>thrown\<close> is the error that reaches the caller.
\<close>

datatype rejection = WithMessage string | Valueless

fun thrown :: "rejection \<Rightarrow> error" where
  "thrown (WithMessage m) = Rejected m"
| "thrown Valueless = RejectedValueless"

text \<open>A property that may be missing: \<open>None\<close> is \<open>undefined\<close>.\<close>

type_synonym js_string = "string option"

text \<open>JavaScript truthiness of a string-or-undefined: \<open>undefined\<close> and \<open>''\<close> are falsy.\<close>

fun truthy :: "js_string \<Rightarrow> bool" where
  "truthy None = False"
| "truthy (Some s) = (s \<noteq> [])"

section \<open>src/modules/accounts.ts\<close>

text \<open>
  The argument of \<open>setAccountAndGet\<close>, \<open>mergeAccountAndGet\<close> and
  \<open>mergeAccountAndGetSQL\<close>: an object with optional \<open>address\<close> and \<open>publicKey\<close> and
  further account fields, kept in \<open>other_fields\<close>.
\<close>

record 'r account_data =
  address :: js_string
  publicKey :: js_string
  other_fields :: 'r

text \<open>
  The injected \<open>accountLogic\<close>. Its store is a state of type \<open>'s\<close> that \<open>set\<close> and
  \<open>merge\<close> with a callback change. \<open>merge\<close> has two call shapes: without a callback
  it only returns SQL text (\<open>al_merge_sql\<close>), with one it resolves to the account
  (\<open>al_merge\<close>). Each is handed the value of \<open>address\<close> as it is, and \<open>Inl msg\<close> is the
  message of the error it raises.
\<close>

record ('r, 's, 'acc) account_logic =
  al_generateAddressByPublicKey :: "js_string \<Rightarrow> string"
  al_set :: "js_string \<Rightarrow> 'r account_data \<Rightarrow> 's \<Rightarrow> string + 's"
  al_get :: "js_string \<Rightarrow> 's \<Rightarrow> string + 'acc"
  al_merge_sql :: "js_string \<Rightarrow> 'r account_data \<Rightarrow> string + string"
  al_merge :: "js_string \<Rightarrow> 'r account_data \<Rightarrow> 's \<Rightarrow> string + ('acc \<times> 's)"

definition missing_msg :: string where
  "missing_msg = ''Missing address and public key''"

text \<open>
  Lines 38-46, 53-60 and 71-78, the same in the three methods: the guard, the derivation
  of the address, and \<open>const {address} = data; delete data.address\<close>.
\<close>

definition take_address ::
  "('r, 's, 'acc) account_logic \<Rightarrow> 'r account_data \<Rightarrow> error + (js_string \<times> 'r account_data)" where
  "take_address l data =
     (if \<not> truthy (address data) \<and> \<not> truthy (publicKey data)
      then Inl (ModuleError missing_msg)
      else
        let data1 = (if \<not> truthy (address data)
                     then data\<lparr>address := Some (al_generateAddressByPublicKey l (publicKey data))\<rparr>
                     else data)
        in Inr (address data1, data1\<lparr>address := None\<rparr>))"

definition setAccountAndGet ::
  "('r, 's, 'acc) account_logic \<Rightarrow> 'r account_data \<Rightarrow> 's \<Rightarrow> (error + 'acc) \<times> 's" where
  "setAccountAndGet l data s =
     (case take_address l data of
        Inl e \<Rightarrow> (Inl e, s)
      | Inr (addr, data') \<Rightarrow>
          (case al_set l addr data' s of
             Inl m \<Rightarrow> (Inl (Rejected m), s)
           | Inr s' \<Rightarrow>
               (case al_get l addr s' of
                  Inl m \<Rightarrow> (Inl (Rejected m), s')
                | Inr acc \<Rightarrow> (Inr acc, s'))))"

definition mergeAccountAndGetSQL ::
  "('r, 's, 'acc) account_logic \<Rightarrow> 'r account_data \<Rightarrow> error + string" where
  "mergeAccountAndGetSQL l diff =
     (case take_address l diff of
        Inl e \<Rightarrow> Inl e
      | Inr (addr, diff') \<Rightarrow>
          (case al_merge_sql l addr diff' of
             Inl m \<Rightarrow> Inl (Rejected m)
           | Inr sql \<Rightarrow> Inr sql))"

definition mergeAccountAndGet ::
  "('r, 's, 'acc) account_logic \<Rightarrow> 'r account_data \<Rightarrow> 's \<Rightarrow> (error + 'acc) \<times> 's" where
  "mergeAccountAndGet l diff s =
     (case take_address l diff of
        Inl e \<Rightarrow> (Inl e, s)
      | Inr (addr, diff') \<Rightarrow>
          (case al_merge l addr diff' s of
             Inl m \<Rightarrow> (Inl (Rejected m), s)
           | Inr (acc, s') \<Rightarrow> (Inr acc, s')))"

section \<open>src/modules/rounds.ts: data\<close>

text \<open>A \<open>Buffer\<close> is a list of bytes. \<open>toString('hex')\<close> writes two lower-case digits a byte.\<close>

type_synonym buffer = "8 word list"

definition hex_digit :: "nat \<Rightarrow> char" where
  "hex_digit d = ''0123456789abcdef'' ! d"

definition hex_byte :: "8 word \<Rightarrow> string" where
  "hex_byte b = [hex_digit (unat b div 16), hex_digit (unat b mod 16)]"

definition toString_hex :: "buffer \<Rightarrow> string" where
  "toString_hex buf = concat (map hex_byte buf)"

text \<open>\<open>Array.prototype.indexOf\<close>: the first index of the element, or \<open>-1\<close>.\<close>

fun indexOf :: "'a list \<Rightarrow> 'a \<Rightarrow> int" where
  "indexOf [] x = - 1"
| "indexOf (y # ys) x =
     (if y = x then 0 else (let i = indexOf ys x in if i = - 1 then - 1 else i + 1))"

text \<open>The fields of a block that the module reads.\<close>

record block =
  height :: nat
  block_id :: string
  generatorPublicKey :: buffer

text \<open>
  What \<open>RoundsModel.sumRound\<close> resolves to. The database returns the 64-bit integers
  \<open>fees\<close> and \<open>rewards\<close> as decimal text; the model keeps the integer that the text
  writes.
\<close>

record sum_res =
  fees :: int
  rewards :: "int list"
  delegates :: "buffer list"

record round_sums =
  roundFees :: int
  roundRewards :: "int list"
  roundDelegates :: "buffer list"

text \<open>
  \<open>RoundLogicScope\<close>. The spread \<open>...roundSums\<close> adds the three fields of the sums, or
  nothing when \<open>roundSums\<close> is \<open>null\<close>: the field \<open>roundSums\<close> is \<open>None\<close> then. The references to the
  logger, the models and the accounts module carry no data and are left out.
\<close>

record scope =
  backwards :: bool
  block :: block
  dposV2 :: bool
  finishRound :: bool
  round :: nat
  roundOutsiders :: "string list option"
  roundSums :: "round_sums option"

datatype bus_msg = FinishRound nat | RoundBackwardTick block

text \<open>The calls the module makes on its collaborators, in the order it makes them.\<close>

datatype 'op event =
    AppStateSet_isTicking bool
  | LoggerDebug string
  | LoggerWarn bool error
  | RoundsModel_sumRound nat nat
  | GenerateDelegateList nat
  | PerformOps "'op list"
  | BusMessage bus_msg

text \<open>The flags of \<open>appStateLogic\<close> and the trace of calls made so far.\<close>

record 'op world =
  rounds_isTicking :: bool
  rounds_isLoaded :: bool
  rounds_snapshot :: "nat option"
  trace :: "'op event list"

text \<open>
  The injected collaborators: constants, \<open>roundsLogic\<close>, \<open>RoundsModel\<close>,
  \<open>delegatesModule\<close>, \<open>accountsModule\<close>, \<open>dbHelper\<close>, \<open>bus\<close>, and the methods of the
  \<open>RoundLogic\<close> built on a scope. The database transaction is one opaque handle passed
  to every call and is left out. \<open>Inl r\<close> is what a call rejects with. \<open>bus.message\<close>
  returns a promise and does not throw before it does.
\<close>

record 'op deps =
  activeDelegates :: nat
  dposv2_firstBlock :: nat
  calcRound :: "nat \<Rightarrow> nat"
  lastInRound :: "nat \<Rightarrow> nat"
  model_sumRound :: "nat \<Rightarrow> nat \<Rightarrow> rejection + sum_res"
  generateDelegateList :: "nat \<Rightarrow> rejection + buffer list"
  generateAddressByPublicKey :: "buffer \<Rightarrow> string"
  performOps :: "'op list \<Rightarrow> rejection + unit"
  bus_message :: "bus_msg \<Rightarrow> rejection + unit"
  mergeBlockGenerator :: "scope \<Rightarrow> 'op list"
  rl_apply :: "scope \<Rightarrow> 'op list"
  rl_undo :: "scope \<Rightarrow> 'op list"
  truncateBlocks :: "scope \<Rightarrow> 'op"
  markBlockId :: "scope \<Rightarrow> 'op"

subsection \<open>Sequencing of awaited calls\<close>

type_synonym ('a, 'op) action = "'op world \<Rightarrow> (error + 'a) \<times> 'op world"

definition returnE :: "'a \<Rightarrow> ('a, 'op) action" where
  "returnE x w = (Inr x, w)"

definition throwE :: "error \<Rightarrow> ('a, 'op) action" where
  "throwE e w = (Inl e, w)"

definition bindE :: "('a, 'op) action \<Rightarrow> ('a \<Rightarrow> ('b, 'op) action) \<Rightarrow> ('b, 'op) action" where
  "bindE m f w = (case m w of (Inl e, w') \<Rightarrow> (Inl e, w') | (Inr x, w') \<Rightarrow> f x w')"

definition emit :: "'op event \<Rightarrow> 'op world \<Rightarrow> 'op world" where
  "emit ev w = w\<lparr>trace := trace w @ [ev]\<rparr>"

text \<open>An awaited call of a collaborator: it is traced, and its rejection is thrown.\<close>

definition call :: "'op event \<Rightarrow> rejection + 'a \<Rightarrow> ('a, 'op) action" where
  "call ev r w = (case r of Inl x \<Rightarrow> (Inl (thrown x), emit ev w) | Inr x \<Rightarrow> (Inr x, emit ev w))"

definition appState_set_isTicking :: "bool \<Rightarrow> 'op world \<Rightarrow> 'op world" where
  "appState_set_isTicking b w = emit (AppStateSet_isTicking b) (w\<lparr>rounds_isTicking := b\<rparr>)"

subsection \<open>Numbers\<close>

text \<open>
  \<open>parseFloat\<close> of the decimal text of an integer is the IEEE 754 double nearest to it,
  ties to the even significand. A double has 53 significant bits, so an integer of at
  most 53 bits is kept and a longer one loses its low bits. (Below \<open>2 ^ 1024\<close>, which
  covers every 64-bit integer.)
\<close>

fun bit_length :: "nat \<Rightarrow> nat" where
  "bit_length n = (if n = 0 then 0 else Suc (bit_length (n div 2)))"

declare bit_length.simps [simp del]

definition nearest_double :: "int \<Rightarrow> int" where
  "nearest_double n =
     (let a = nat \<bar>n\<bar>; e = bit_length a in
      if e \<le> 53 then n
      else
        let s = e - 53; q = a div 2 ^ s; r = a mod 2 ^ s; half = 2 ^ (s - 1);
            q' = (if r > half \<or> (r = half \<and> odd q) then q + 1 else q)
        in sgn n * int (q' * 2 ^ s))"

definition parseFloat :: "int \<Rightarrow> real" where
  "parseFloat n = real_of_int (nearest_double n)"

definition Math_floor :: "real \<Rightarrow> int" where
  "Math_floor x = \<lfloor>x\<rfloor>"

section \<open>src/modules/rounds.ts: RoundsModule\<close>

text \<open>Lines 115-117: \<open>appStateLogic.get('rounds.snapshot') || 0\<close>.\<close>

definition getSnapshotRounds :: "'op world \<Rightarrow> nat" where
  "getSnapshotRounds w = (case rounds_snapshot w of None \<Rightarrow> 0 | Some n \<Rightarrow> if n = 0 then 0 else n)"

text \<open>Lines 189-198.\<close>

definition sumRound :: "'op deps \<Rightarrow> nat \<Rightarrow> (round_sums, 'op) action" where
  "sumRound env rnd =
     (\<lambda>w. bindE (call (RoundsModel_sumRound (activeDelegates env) rnd)
                   (model_sumRound env (activeDelegates env) rnd))
        (\<lambda>res. returnE
           \<lparr>roundFees = Math_floor (parseFloat (fees res)),
            roundRewards = map (\<lambda>reward. Math_floor (parseFloat reward)) (rewards res),
            roundDelegates = delegates res\<rparr>)
        (emit (LoggerDebug ''Summing round'') w))"

text \<open>Lines 177-186.\<close>

definition getOutsiders :: "'op deps \<Rightarrow> nat \<Rightarrow> buffer list \<Rightarrow> (string list, 'op) action" where
  "getOutsiders env rnd roundDelegates' =
     (let strPKDelegates = map toString_hex roundDelegates';
          height' = lastInRound env rnd
      in bindE (call (GenerateDelegateList height') (generateDelegateList env height'))
           (\<lambda>originalDelegates. returnE
              (map (generateAddressByPublicKey env)
                 (filter (\<lambda>pk. indexOf strPKDelegates (toString_hex pk) = - 1) originalDelegates))))"

text \<open>
  Lines 134-139: the correction at height 1. Reading \<open>roundSums.roundDelegates\<close> when
  \<open>roundSums\<close> is \<open>null\<close> throws a \<open>TypeError\<close>; \<open>&&\<close> reads it only at height 1.
\<close>

definition genesis_fix :: "block \<Rightarrow> round_sums option \<Rightarrow> (round_sums option, 'op) action" where
  "genesis_fix blk sums0 =
     (if height blk = 1
      then (case sums0 of
              None \<Rightarrow> throwE TypeError
            | Some s \<Rightarrow>
                if length (roundDelegates s) \<noteq> 1
                then returnE (Some \<lparr>roundFees = 0, roundRewards = [0],
                                    roundDelegates = [generatorPublicKey blk]\<rparr>)
                else returnE sums0)
      else returnE sums0)"

text \<open>
  Lines 124-162: the round, whether the block finishes it, the sums, the outsiders and
  the scope handed to the transaction generator.
\<close>

definition innerTick_scope :: "'op deps \<Rightarrow> block \<Rightarrow> bool \<Rightarrow> (scope, 'op) action" where
  "innerTick_scope env blk backwards' =
     (let rnd = calcRound env (height blk);
          nextRound = calcRound env (height blk + 1);
          finishRound' = (nextRound \<noteq> rnd \<or> height blk = 1)
      in bindE (if finishRound' then bindE (sumRound env rnd) (\<lambda>s. returnE (Some s))
                else returnE None)
           (\<lambda>sums0. bindE (genesis_fix blk sums0)
              (\<lambda>sums1.
                 bindE (if finishRound'
                        then (case sums1 of
                                None \<Rightarrow> throwE TypeError
                              | Some s \<Rightarrow> bindE (getOutsiders env rnd (roundDelegates s))
                                            (\<lambda>out. returnE (Some out)))
                        else returnE None)
                   (\<lambda>roundOutsiders'. returnE
                      \<lparr>backwards = backwards',
                       block = blk,
                       dposV2 = (height blk \<ge> dposv2_firstBlock env),
                       finishRound = finishRound',
                       round = rnd,
                       roundOutsiders = roundOutsiders',
                       roundSums = sums1\<rparr>))))"

text \<open>
  Lines 133-164: the awaited steps of the \<open>try\<close> block, after the flag is set. The round
  and \<open>finishRound\<close> are computed before the \<open>try\<close>; they have no effect and are part of
  \<open>innerTick_scope\<close> here.
\<close>

definition innerTick_try ::
  "'op deps \<Rightarrow> block \<Rightarrow> bool \<Rightarrow> (scope \<Rightarrow> (unit, 'op) action) \<Rightarrow> (unit, 'op) action
     \<Rightarrow> (unit, 'op) action" where
  "innerTick_try env blk backwards' txGenerator afterTxPromise =
     bindE (innerTick_scope env blk backwards')
       (\<lambda>roundLogicScope. bindE (txGenerator roundLogicScope) (\<lambda>_. afterTxPromise))"

text \<open>
  Lines 166-170: the \<open>catch\<close>. The argument \<open>e.message || e\<close> of \<open>logger.warn\<close> is
  evaluated first: when \<open>e\<close> is \<open>null\<close> or \<open>undefined\<close>, reading \<open>e.message\<close> throws a
  \<open>TypeError\<close> out of the \<open>catch\<close>, before the warning is logged and before the flag is
  cleared. Any other \<open>e\<close> is logged, the flag is cleared and \<open>e\<close> is thrown again. The
  logger and \<open>appStateLogic.set\<close> themselves do not throw.
\<close>

definition innerTick_catch :: "bool \<Rightarrow> error \<Rightarrow> (unit, 'op) action" where
  "innerTick_catch backwards' e w =
     (if e = RejectedValueless then (Inl TypeError_message, w)
      else (Inl e, appState_set_isTicking False (emit (LoggerWarn backwards' e) w)))"

text \<open>Lines 119-171.\<close>

definition innerTick ::
  "'op deps \<Rightarrow> block \<Rightarrow> bool \<Rightarrow> (scope \<Rightarrow> (unit, 'op) action) \<Rightarrow> (unit, 'op) action
     \<Rightarrow> (unit, 'op) action" where
  "innerTick env blk backwards' txGenerator afterTxPromise w =
     (case innerTick_try env blk backwards' txGenerator afterTxPromise
             (appState_set_isTicking True w) of
        (Inr _, w') \<Rightarrow> (Inr (), appState_set_isTicking False w')
      | (Inl e, w') \<Rightarrow> innerTick_catch backwards' e w')"

text \<open>The default of \<open>afterTxPromise\<close>: \<open>() => Promise.resolve(null)\<close>.\<close>

definition afterTx_default :: "(unit, 'op) action" where
  "afterTx_default = returnE ()"

text \<open>Lines 85-110: the op list of a forward tick and its transaction generator.\<close>

definition tick_ops :: "'op deps \<Rightarrow> 'op world \<Rightarrow> scope \<Rightarrow> 'op list" where
  "tick_ops env w sc =
     (let snapshotRound = (getSnapshotRounds w > 0 \<and> getSnapshotRounds w = round sc);
          ops = mergeBlockGenerator env sc;
          ops = ops @ rl_apply env sc;
          ops = (if finishRound sc then (if snapshotRound then ops @ [truncateBlocks env sc] else ops)
                 else ops);
          ops = ops @ [markBlockId env sc]
      in ops)"

definition tick_txGenerator :: "'op deps \<Rightarrow> scope \<Rightarrow> (unit, 'op) action" where
  "tick_txGenerator env sc w =
     bindE (call (PerformOps (tick_ops env w sc)) (performOps env (tick_ops env w sc)))
       (\<lambda>_. if finishRound sc
             then call (BusMessage (FinishRound (round sc))) (bus_message env (FinishRound (round sc)))
             else returnE ())
       (emit (LoggerDebug ''Performing forward tick'') w)"

definition tick :: "'op deps \<Rightarrow> block \<Rightarrow> (unit, 'op) action" where
  "tick env blk = innerTick env blk False (tick_txGenerator env) afterTx_default"

text \<open>Lines 72-83. The promise of \<open>bus.message('roundBackwardTick', block)\<close> is not awaited.\<close>

definition backwardTick_ops :: "'op deps \<Rightarrow> scope \<Rightarrow> 'op list" where
  "backwardTick_ops env sc =
     (let ops = mergeBlockGenerator env sc;
          ops = ops @ rl_undo env sc;
          ops = ops @ [markBlockId env sc]
      in ops)"

definition backwardTick_txGenerator :: "'op deps \<Rightarrow> scope \<Rightarrow> (unit, 'op) action" where
  "backwardTick_txGenerator env sc w =
     call (PerformOps (backwardTick_ops env sc)) (performOps env (backwardTick_ops env sc))
       (emit (LoggerDebug ''Performing backward tick'') w)"

definition backwardTick :: "'op deps \<Rightarrow> block \<Rightarrow> block \<Rightarrow> (unit, 'op) action" where
  "backwardTick env blk previousBlock w =
     innerTick env blk True (backwardTick_txGenerator env) afterTx_default
       (emit (BusMessage (RoundBackwardTick blk)) w)"

section \<open>The specification's predicates\<close>

text \<open>
  Section 4.1 of the specification: \<open>is_round_end(h) = (round_of(h) != round_of(h+1)) || h == 1\<close>,
  with \<open>round_of\<close> the injected \<open>roundsLogic.calcRound\<close>.
\<close>

definition is_round_end :: "'op deps \<Rightarrow> nat \<Rightarrow> bool" where
  "is_round_end env h = (calcRound env h \<noteq> calcRound env (h + 1) \<or> h = 1)"

text \<open>
  Section 4.6, step 3: at height 1, sums whose delegate list has not exactly one entry are
  replaced by \<open>{ fees: 0, rewards: [0], delegates: [block.generatorPublicKey] }\<close>.
\<close>

definition corrected_sums :: "block \<Rightarrow> round_sums \<Rightarrow> round_sums" where
  "corrected_sums blk s =
     (if height blk = 1 \<and> length (roundDelegates s) \<noteq> 1
      then \<lparr>roundFees = 0, roundRewards = [0], roundDelegates = [generatorPublicKey blk]\<rparr>
      else s)"

text \<open>The calls made during one tick: what the trace gained.\<close>

definition new_trace :: "'op world \<Rightarrow> 'a \<times> 'op world \<Rightarrow> 'op event list" where
  "new_trace w r = drop (length (trace w)) (trace (snd r))"

text \<open>What leaves the \<open>catch\<close> for an error \<open>e\<close> of the \<open>try\<close> block, and the calls it makes.\<close>

definition rethrown :: "error \<Rightarrow> error" where
  "rethrown e = (if e = RejectedValueless then TypeError_message else e)"

definition catch_events :: "bool \<Rightarrow> error \<Rightarrow> 'op event list" where
  "catch_events bw e =
     (if e = RejectedValueless then [] else [LoggerWarn bw e, AppStateSet_isTicking False])"

text \<open>The events that building the scope can add: logging and the two reads.\<close>

fun read_event :: "'op event \<Rightarrow> bool" where
  "read_event (LoggerDebug _) = True"
| "read_event (RoundsModel_sumRound _ _) = True"
| "read_event (GenerateDelegateList _) = True"
| "read_event _ = False"

section \<open>Collaborators written out for concrete runs\<close>

text \<open>
  Modelled from the spec: \<open>roundsLogic.calcRound\<close> and \<open>roundsLogic.lastInRound\<close>, whose
  source is not among the files. Section 3: \<open>r = ceil(h / N)\<close> and \<open>last_in_round(r) = r*N\<close>.
\<close>

definition calcRound_spec :: "nat \<Rightarrow> nat \<Rightarrow> nat" where
  "calcRound_spec N h = (h + N - 1) div N"

definition lastInRound_spec :: "nat \<Rightarrow> nat \<Rightarrow> nat" where
  "lastInRound_spec N r = r * N"



text \<open>
  A chain with three active delegates. The round-1 blocks were forged by \<open>pk_a\<close>, \<open>pk_b\<close>,
  \<open>pk_a\<close>; the slate is \<open>pk_a\<close>, \<open>pk_b\<close>, \<open>pk_c\<close>; an op is the name of the method that
  made it; snapshot mode is on for round 1.
\<close>

definition pk_a :: buffer where
  "pk_a = [1]"

definition pk_b :: buffer where
  "pk_b = [2]"

definition pk_c :: buffer where
  "pk_c = [3]"

definition test_deps :: "string deps" where
  "test_deps =
     \<lparr>activeDelegates = 3,
      dposv2_firstBlock = 100,
      calcRound = calcRound_spec 3,
      lastInRound = lastInRound_spec 3,
      model_sumRound = (\<lambda>n r. Inr \<lparr>fees = 10, rewards = [1, 1, 1], delegates = [pk_a, pk_b, pk_a]\<rparr>),
      generateDelegateList = (\<lambda>h. Inr [pk_a, pk_b, pk_c]),
      generateAddressByPublicKey = (\<lambda>pk. toString_hex pk @ ''R''),
      performOps = (\<lambda>ops. Inr ()),
      bus_message = (\<lambda>m. Inr ()),
      mergeBlockGenerator = (\<lambda>sc. [''merge'']),
      rl_apply = (\<lambda>sc. if finishRound sc then [''apply''] else []),
      rl_undo = (\<lambda>sc. if finishRound sc then [''undo''] else []),
      truncateBlocks = (\<lambda>sc. ''truncate''),
      markBlockId = (\<lambda>sc. ''mark'')\<rparr>"

definition test_world :: "string world" where
  "test_world = \<lparr>rounds_isTicking = False, rounds_isLoaded = True, rounds_snapshot = Some 1, trace = []\<rparr>"

definition test_block :: "nat \<Rightarrow> block" where
  "test_block h = \<lparr>height = h, block_id = ''b'', generatorPublicKey = pk_a\<rparr>"

text \<open>The same chain with a database helper that rejects with an error.\<close>

definition failing_ops_deps :: "string deps" where
  "failing_ops_deps = test_deps\<lparr>performOps := (\<lambda>ops. Inl (WithMessage ''database failed''))\<rparr>"




text \<open>The same chain with round fees of \<open>2 ^ 53 + 1\<close>.\<close>

definition big_fee_deps :: "string deps" where
  "big_fee_deps = test_deps\<lparr>model_sumRound :=
     (\<lambda>n r. Inr \<lparr>fees = 9007199254740993, rewards = [1, 1, 1], delegates = [pk_a, pk_b, pk_a]\<rparr>)\<rparr>"

text \<open>The scopes and the world that \<open>innerTick_scope\<close> reaches on this chain.\<close>

definition finishing_scope :: "bool \<Rightarrow> scope" where
  "finishing_scope bw =
     \<lparr>backwards = bw, block = test_block 3, dposV2 = False, finishRound = True,
      round = 1, roundOutsiders = Some [''03R''],
      roundSums = Some \<lparr>roundFees = 10, roundRewards = [1, 1, 1],
                        roundDelegates = [pk_a, pk_b, pk_a]\<rparr>\<rparr>"

definition genesis_scope :: scope where
  "genesis_scope =
     \<lparr>backwards = False, block = test_block 1, dposV2 = False, finishRound = True,
      round = 1, roundOutsiders = Some [''02R'', ''03R''],
      roundSums = Some \<lparr>roundFees = 0, roundRewards = [0], roundDelegates = [pk_a]\<rparr>\<rparr>"

definition scoped_world :: "string world" where
  "scoped_world = test_world\<lparr>trace :=
     [LoggerDebug ''Summing round'', RoundsModel_sumRound 3 1, GenerateDelegateList 3]\<rparr>"

text \<open>An account logic over an association list, and an argument for the facade.\<close>

definition test_account_logic :: "(nat, (string \<times> nat) list, nat) account_logic" where
  "test_account_logic =
     \<lparr>al_generateAddressByPublicKey = (\<lambda>pk. case pk of None \<Rightarrow> ''R'' | Some k \<Rightarrow> k @ ''R''),
      al_set = (\<lambda>a d s. case a of None \<Rightarrow> Inl ''no address'' | Some x \<Rightarrow> Inr ((x, other_fields d) # s)),
      al_get = (\<lambda>a s. case a of None \<Rightarrow> Inl ''no address''
                      | Some x \<Rightarrow> (case map_of s x of None \<Rightarrow> Inl ''not found'' | Some v \<Rightarrow> Inr v)),
      al_merge_sql = (\<lambda>a d. case a of None \<Rightarrow> Inl ''no address'' | Some x \<Rightarrow> Inr (''update '' @ x)),
      al_merge = (\<lambda>a d s. case a of None \<Rightarrow> Inl ''no address''
                      | Some x \<Rightarrow> Inr (other_fields d, (x, other_fields d) # s))\<rparr>"

definition test_data :: "js_string \<Rightarrow> js_string \<Rightarrow> nat account_data" where
  "test_data a pk = \<lparr>address = a, publicKey = pk, other_fields = 5\<rparr>"

section \<open>Sequencing and trace lemmas\<close>

lemma emit_fields [simp]:
  "trace (emit ev w) = trace w @ [ev]"
  "rounds_isTicking (emit ev w) = rounds_isTicking w"
  "rounds_snapshot (emit ev w) = rounds_snapshot w"
  "rounds_isLoaded (emit ev w) = rounds_isLoaded w"
  by (simp_all add: emit_def)

lemma set_isTicking_fields [simp]:
  "trace (appState_set_isTicking b w) = trace w @ [AppStateSet_isTicking b]"
  "rounds_isTicking (appState_set_isTicking b w) = b"
  "rounds_snapshot (appState_set_isTicking b w) = rounds_snapshot w"
  "rounds_isLoaded (appState_set_isTicking b w) = rounds_isLoaded w"
  by (simp_all add: appState_set_isTicking_def)

lemma getSnapshotRounds_emit [simp]:
  "getSnapshotRounds (emit ev w) = getSnapshotRounds w"
  "getSnapshotRounds (appState_set_isTicking b w) = getSnapshotRounds w"
  by (simp_all add: getSnapshotRounds_def)

lemma bindE_simps [simp]:
  "bindE (returnE x) f w = f x w"
  "bindE (throwE e) f w = (Inl e, w)"
  by (simp_all add: bindE_def returnE_def throwE_def)

lemma thrown_simps [simp]:
  "thrown r \<noteq> TypeError"
  "thrown r \<noteq> TypeError_message"
  "(thrown r = RejectedValueless) = (r = Valueless)"
  "(thrown r = Rejected m) = (r = WithMessage m)"
  by (cases r; simp)+

lemma rethrown_simps [simp]:
  "(rethrown e = TypeError) = (e = TypeError)"
  "e \<noteq> RejectedValueless \<Longrightarrow> rethrown e = e"
  "rethrown RejectedValueless = TypeError_message"
  "rethrown (thrown (WithMessage m)) = Rejected m"
  "rethrown e \<noteq> RejectedValueless"
  by (simp_all add: rethrown_def)

lemma catch_events_simps [simp]:
  "PerformOps ops \<notin> set (catch_events bw e)"
  "BusMessage msg \<notin> set (catch_events bw e)"
  "RoundsModel_sumRound n r \<notin> set (catch_events bw e)"
  "AppStateSet_isTicking True \<notin> set (catch_events bw e)"
  "e \<noteq> RejectedValueless \<Longrightarrow>
     catch_events bw e = [LoggerWarn bw e, AppStateSet_isTicking False]"
  "catch_events bw RejectedValueless = []"
  by (simp_all add: catch_events_def)

lemma innerTick_catch_eq:
  "innerTick_catch bw e w =
     (Inl (rethrown e),
      w\<lparr>rounds_isTicking := (if e = RejectedValueless then rounds_isTicking w else False),
         trace := trace w @ catch_events bw e\<rparr>)"
  by (simp add: innerTick_catch_def rethrown_def catch_events_def appState_set_isTicking_def
        emit_def)

lemma bindE_call:
  "bindE (call ev r) f w =
     (case r of Inl x \<Rightarrow> (Inl (thrown x), emit ev w) | Inr x \<Rightarrow> f x (emit ev w))"
  by (simp add: bindE_def call_def split: sum.splits)

section \<open>The module's functions, unfolded\<close>

lemma sumRound_unfold:
  "sumRound env rnd w =
     (case model_sumRound env (activeDelegates env) rnd of
        Inl m \<Rightarrow> (Inl (thrown m),
                   emit (RoundsModel_sumRound (activeDelegates env) rnd)
                     (emit (LoggerDebug ''Summing round'') w))
      | Inr res \<Rightarrow>
          (Inr \<lparr>roundFees = Math_floor (parseFloat (fees res)),
                roundRewards = map (\<lambda>reward. Math_floor (parseFloat reward)) (rewards res),
                roundDelegates = delegates res\<rparr>,
           emit (RoundsModel_sumRound (activeDelegates env) rnd)
             (emit (LoggerDebug ''Summing round'') w)))"
  by (simp add: sumRound_def bindE_call returnE_def split: sum.splits)

lemma getOutsiders_unfold:
  "getOutsiders env rnd ds w =
     (case generateDelegateList env (lastInRound env rnd) of
        Inl m \<Rightarrow> (Inl (thrown m), emit (GenerateDelegateList (lastInRound env rnd)) w)
      | Inr slate \<Rightarrow>
          (Inr (map (generateAddressByPublicKey env)
                  (filter (\<lambda>pk. indexOf (map toString_hex ds) (toString_hex pk) = - 1) slate)),
           emit (GenerateDelegateList (lastInRound env rnd)) w))"
  by (simp add: getOutsiders_def Let_def bindE_call returnE_def split: sum.splits)

lemma innerTick_scope_not_finishing:
  assumes "\<not> is_round_end env (height blk)"
  shows "innerTick_scope env blk bw w =
           (Inr \<lparr>backwards = bw, block = blk, dposV2 = (height blk \<ge> dposv2_firstBlock env),
                 finishRound = False, round = calcRound env (height blk),
                 roundOutsiders = None, roundSums = None\<rparr>, w)"
proof -
  have fr: "(calcRound env (height blk + 1) \<noteq> calcRound env (height blk) \<or> height blk = 1) = False"
    and h: "height blk \<noteq> 1"
    using assms by (auto simp: is_round_end_def)
  show ?thesis
    unfolding innerTick_scope_def Let_def fr
    using h by (simp add: genesis_fix_def returnE_def)
qed

lemma innerTick_scope_finishing:
  assumes "is_round_end env (height blk)"
  shows "innerTick_scope env blk bw w =
     (case sumRound env (calcRound env (height blk)) w of
        (Inl e, w1) \<Rightarrow> (Inl e, w1)
      | (Inr s, w1) \<Rightarrow>
          (case getOutsiders env (calcRound env (height blk))
                  (roundDelegates (corrected_sums blk s)) w1 of
             (Inl e, w2) \<Rightarrow> (Inl e, w2)
           | (Inr out, w2) \<Rightarrow>
               (Inr \<lparr>backwards = bw, block = blk,
                     dposV2 = (height blk \<ge> dposv2_firstBlock env),
                     finishRound = True, round = calcRound env (height blk),
                     roundOutsiders = Some out,
                     roundSums = Some (corrected_sums blk s)\<rparr>, w2)))"
proof -
  have fr: "(calcRound env (height blk + 1) \<noteq> calcRound env (height blk) \<or> height blk = 1) = True"
    using assms by (auto simp: is_round_end_def)
  show ?thesis
    unfolding innerTick_scope_def Let_def fr
    by (simp add: bindE_def genesis_fix_def corrected_sums_def returnE_def throwE_def
          split: prod.splits sum.splits)
qed

lemma sumRound_world:
  "sumRound env rnd w = (r, w') \<Longrightarrow>
   w' = emit (RoundsModel_sumRound (activeDelegates env) rnd) (emit (LoggerDebug ''Summing round'') w)"
  by (auto simp: sumRound_unfold split: sum.splits)

lemma getOutsiders_world:
  "getOutsiders env rnd ds w = (r, w') \<Longrightarrow> w' = emit (GenerateDelegateList (lastInRound env rnd)) w"
  by (auto simp: getOutsiders_unfold split: sum.splits)

lemma innerTick_scope_world:
  assumes "innerTick_scope env blk bw w = (r, w')"
  shows "rounds_isTicking w' = rounds_isTicking w \<and> rounds_snapshot w' = rounds_snapshot w \<and>
         (\<exists>evs. trace w' = trace w @ evs \<and> (\<forall>ev \<in> set evs. read_event ev))"
proof (cases "is_round_end env (height blk)")
  case False
  with assms show ?thesis by (simp add: innerTick_scope_not_finishing)
next
  case True
  obtain r1 w1 where s: "sumRound env (calcRound env (height blk)) w = (r1, w1)"
    by (cases "sumRound env (calcRound env (height blk)) w")
  note w1 = sumRound_world [OF s]
  show ?thesis
  proof (cases r1)
    case (Inl e)
    with assms True s have "w' = w1" by (simp add: innerTick_scope_finishing)
    with w1 show ?thesis by simp
  next
    case (Inr sm)
    obtain r2 w2 where g: "getOutsiders env (calcRound env (height blk))
        (roundDelegates (corrected_sums blk sm)) w1 = (r2, w2)"
      by (cases "getOutsiders env (calcRound env (height blk))
        (roundDelegates (corrected_sums blk sm)) w1")
    note w2 = getOutsiders_world [OF g]
    from assms True s Inr g have "w' = w2"
      by (cases r2) (simp_all add: innerTick_scope_finishing)
    with w1 w2 show ?thesis by simp
  qed
qed

lemma innerTick_unfold:
  "innerTick env blk bw txG aft w =
     (case innerTick_scope env blk bw (appState_set_isTicking True w) of
        (Inl e, w1) \<Rightarrow> innerTick_catch bw e w1
      | (Inr sc, w1) \<Rightarrow>
          (case txG sc w1 of
             (Inl e, w2) \<Rightarrow> innerTick_catch bw e w2
           | (Inr _, w2) \<Rightarrow>
               (case aft w2 of
                  (Inl e, w3) \<Rightarrow> innerTick_catch bw e w3
                | (Inr _, w3) \<Rightarrow> (Inr (), appState_set_isTicking False w3))))"
  by (simp add: innerTick_def innerTick_try_def bindE_def split: prod.splits sum.splits)

lemma tick_txGenerator_unfold:
  "tick_txGenerator env sc w =
     (let w2 = emit (PerformOps (tick_ops env w sc)) (emit (LoggerDebug ''Performing forward tick'') w)
      in case performOps env (tick_ops env w sc) of
           Inl m \<Rightarrow> (Inl (thrown m), w2)
         | Inr _ \<Rightarrow>
             if finishRound sc
             then (case bus_message env (FinishRound (round sc)) of
                     Inl m \<Rightarrow> (Inl (thrown m), emit (BusMessage (FinishRound (round sc))) w2)
                   | Inr _ \<Rightarrow> (Inr (), emit (BusMessage (FinishRound (round sc))) w2))
             else (Inr (), w2))"
  by (simp add: tick_txGenerator_def bindE_call Let_def call_def returnE_def split: sum.splits)

lemma backwardTick_txGenerator_unfold:
  "backwardTick_txGenerator env sc w =
     (let w2 = emit (PerformOps (backwardTick_ops env sc))
                 (emit (LoggerDebug ''Performing backward tick'') w)
      in case performOps env (backwardTick_ops env sc) of
           Inl m \<Rightarrow> (Inl (thrown m), w2)
         | Inr _ \<Rightarrow> (Inr (), w2))"
  by (simp add: backwardTick_txGenerator_def call_def Let_def split: sum.splits)


lemma getSnapshotRounds_pos:
  "(0 < getSnapshotRounds w \<and> getSnapshotRounds w = r) =
   (\<exists>n. rounds_snapshot w = Some n \<and> 0 < n \<and> n = r)"
  by (auto simp: getSnapshotRounds_def split: option.splits)

lemma tick_ops_unfold:
  "tick_ops env w sc =
     mergeBlockGenerator env sc @ rl_apply env sc @
       (if finishRound sc \<and> (\<exists>n. rounds_snapshot w = Some n \<and> 0 < n \<and> n = round sc)
        then [truncateBlocks env sc] else []) @
       [markBlockId env sc]"
  unfolding getSnapshotRounds_pos [symmetric]
  by (simp add: tick_ops_def Let_def)

section \<open>Doubles that hold integers\<close>

lemma bit_length_numeral: "bit_length (numeral (Num.Bit0 n)) = Suc (bit_length (numeral n))"
  "bit_length (numeral (Num.Bit1 n)) = Suc (bit_length (numeral n))"
  "bit_length (Suc 0) = Suc 0" "bit_length 0 = 0"
  by (subst bit_length.simps, simp add: numeral_Bit0_div_2 numeral_Bit1_div_2 bit_length.simps)+

lemma bit_length_le: "n < 2 ^ k \<Longrightarrow> bit_length n \<le> k"
proof (induction k arbitrary: n)
  case 0
  then show ?case by (simp add: bit_length.simps)
next
  case (Suc k)
  have "n div 2 < 2 ^ k" using Suc.prems by simp
  then have "bit_length (n div 2) \<le> k" by (rule Suc.IH)
  then show ?case by (subst bit_length.simps) simp
qed

lemma nearest_double_exact: "\<bar>n\<bar> < 2 ^ 53 \<Longrightarrow> nearest_double n = n"
proof -
  assume "\<bar>n\<bar> < 2 ^ 53"
  then have "nat \<bar>n\<bar> < 2 ^ 53" by simp
  then have "bit_length (nat \<bar>n\<bar>) \<le> 53" by (rule bit_length_le)
  then show ?thesis by (simp add: nearest_double_def Let_def)
qed

lemma floor_parse: "\<bar>n\<bar> < 2 ^ 53 \<Longrightarrow> Math_floor (parseFloat n) = n"
  by (simp add: Math_floor_def parseFloat_def nearest_double_exact)

lemma small_exact: "Math_floor (parseFloat 10) = 10" "Math_floor (parseFloat 1) = 1"
  by (simp_all add: floor_parse)

section \<open>Hex text of a buffer determines the buffer\<close>

lemma hex_digit_inj: "a < 16 \<Longrightarrow> b < 16 \<Longrightarrow> hex_digit a = hex_digit b \<Longrightarrow> a = b"
proof -
  assume a: "a < 16" and b: "b < 16" and e: "hex_digit a = hex_digit b"
  have d: "distinct ''0123456789abcdef''" by simp
  have l: "length ''0123456789abcdef'' = 16" by simp
  from d a b e l show "a = b"
    unfolding hex_digit_def by (metis nth_eq_iff_index_eq)
qed

lemma hex_byte_inj: "hex_byte a = hex_byte b \<Longrightarrow> a = b"
proof -
  assume e: "hex_byte a = hex_byte b"
  have la: "unat a < 256" and lb: "unat b < 256"
    using unsigned_less [of a, where 'a = nat] unsigned_less [of b, where 'a = nat] by simp_all
  then have d: "unat a div 16 < 16" "unat b div 16 < 16" by simp_all
  have m: "unat a mod 16 < 16" "unat b mod 16 < 16" by simp_all
  from e have "hex_digit (unat a div 16) = hex_digit (unat b div 16)"
    and "hex_digit (unat a mod 16) = hex_digit (unat b mod 16)"
    by (simp_all add: hex_byte_def)
  then have "unat a div 16 = unat b div 16" "unat a mod 16 = unat b mod 16"
    using d m by (blast intro: hex_digit_inj)+
  then have "unat a = unat b" by (metis div_mult_mod_eq)
  then show "a = b" by (simp add: word_unat_eq_iff)
qed

lemma toString_hex_inj: "toString_hex xs = toString_hex ys \<Longrightarrow> xs = ys"
proof (induction xs arbitrary: ys)
  case Nil
  then show ?case by (cases ys) (simp_all add: toString_hex_def hex_byte_def)
next
  case (Cons x xs)
  show ?case
  proof (cases ys)
    case Nil
    with Cons.prems show ?thesis by (simp add: toString_hex_def hex_byte_def)
  next
    case (Cons y ys')
    with Cons.prems have "hex_byte x @ toString_hex xs = hex_byte y @ toString_hex ys'"
      by (simp add: toString_hex_def)
    moreover have "length (hex_byte x) = length (hex_byte y)" by (simp add: hex_byte_def)
    ultimately have "hex_byte x = hex_byte y" "toString_hex xs = toString_hex ys'" by simp_all
    then show ?thesis using Cons.IH local.Cons by (simp add: hex_byte_inj)
  qed
qed

lemma indexOf_bounds: "- 1 \<le> indexOf xs x \<and> (indexOf xs x = - 1 \<longleftrightarrow> x \<notin> set xs)"
  by (induction xs) (auto simp: Let_def)

lemma indexOf_hex:
  "(indexOf (map toString_hex ds) (toString_hex pk) = - 1) = (pk \<notin> set ds)"
  using indexOf_bounds [of "map toString_hex ds" "toString_hex pk"]
  by (auto dest: toString_hex_inj)

lemma getOutsiders_result:
  "fst (getOutsiders env rnd ds w) =
     (case generateDelegateList env (lastInRound env rnd) of
        Inl m \<Rightarrow> Inl (thrown m)
      | Inr slate \<Rightarrow>
          Inr (map (generateAddressByPublicKey env) (filter (\<lambda>pk. pk \<notin> set ds) slate)))"
  by (simp add: getOutsiders_unfold indexOf_hex split: sum.splits)

section \<open>What the scope holds\<close>

lemma sumRound_not_TypeError: "sumRound env rnd w \<noteq> (Inl TypeError, w')"
  by (simp add: sumRound_unfold split: sum.splits)

lemma getOutsiders_not_TypeError: "getOutsiders env rnd ds w \<noteq> (Inl TypeError, w')"
  by (simp add: getOutsiders_unfold split: sum.splits)

lemma innerTick_scope_not_TypeError: "innerTick_scope env blk bw w \<noteq> (Inl TypeError, w')"
proof (cases "is_round_end env (height blk)")
  case False
  then show ?thesis by (simp add: innerTick_scope_not_finishing)
next
  case True
  show ?thesis
    using sumRound_not_TypeError [of env "calcRound env (height blk)" w]
      getOutsiders_not_TypeError [of env "calcRound env (height blk)"]
    by (auto simp: innerTick_scope_finishing [OF True] split: prod.splits sum.splits)
qed

lemma innerTick_scope_fields:
  assumes "innerTick_scope env blk bw w = (Inr sc, w')"
  shows "finishRound sc = is_round_end env (height blk)"
    and "round sc = calcRound env (height blk)"
    and "backwards sc = bw"
    and "block sc = blk"
    and "dposV2 sc = (height blk \<ge> dposv2_firstBlock env)"
proof -
  have "finishRound sc = is_round_end env (height blk) \<and> round sc = calcRound env (height blk) \<and>
        backwards sc = bw \<and> block sc = blk \<and> dposV2 sc = (height blk \<ge> dposv2_firstBlock env)"
  proof (cases "is_round_end env (height blk)")
    case False
    with assms show ?thesis by (auto simp: innerTick_scope_not_finishing)
  next
    case True
    with assms show ?thesis
      by (auto simp: innerTick_scope_finishing [OF True] split: prod.splits sum.splits)
  qed
  then show "finishRound sc = is_round_end env (height blk)"
    and "round sc = calcRound env (height blk)"
    and "backwards sc = bw"
    and "block sc = blk"
    and "dposV2 sc = (height blk \<ge> dposv2_firstBlock env)"
    by simp_all
qed

lemma innerTick_scope_sums:
  assumes "innerTick_scope env blk bw w = (Inr sc, w')"
  shows "if is_round_end env (height blk)
         then \<exists>s slate. fst (sumRound env (calcRound env (height blk)) w) = Inr s \<and>
                generateDelegateList env (lastInRound env (calcRound env (height blk))) = Inr slate \<and>
                roundSums sc = Some (corrected_sums blk s) \<and>
                roundOutsiders sc = Some (map (generateAddressByPublicKey env)
                  (filter (\<lambda>pk. pk \<notin> set (roundDelegates (corrected_sums blk s))) slate))
         else roundSums sc = None \<and> roundOutsiders sc = None"
proof (cases "is_round_end env (height blk)")
  case False
  with assms show ?thesis by (auto simp: innerTick_scope_not_finishing)
next
  case True
  obtain r1 w1 where s: "sumRound env (calcRound env (height blk)) w = (r1, w1)"
    by (cases "sumRound env (calcRound env (height blk)) w")
  from assms True s obtain sm where r1: "r1 = Inr sm"
    by (cases r1) (simp_all add: innerTick_scope_finishing)
  obtain r2 w2 where g: "getOutsiders env (calcRound env (height blk))
      (roundDelegates (corrected_sums blk sm)) w1 = (r2, w2)"
    by (cases "getOutsiders env (calcRound env (height blk))
      (roundDelegates (corrected_sums blk sm)) w1")
  from assms True s r1 g obtain out where r2: "r2 = Inr out"
    by (cases r2) (simp_all add: innerTick_scope_finishing)
  from assms True s r1 g r2 have sc:
    "roundSums sc = Some (corrected_sums blk sm)" "roundOutsiders sc = Some out"
    by (auto simp: innerTick_scope_finishing)
  from g r2 have "fst (getOutsiders env (calcRound env (height blk))
      (roundDelegates (corrected_sums blk sm)) w1) = Inr out" by simp
  then obtain slate where
    sl: "generateDelegateList env (lastInRound env (calcRound env (height blk))) = Inr slate"
    and out: "out = map (generateAddressByPublicKey env)
        (filter (\<lambda>pk. pk \<notin> set (roundDelegates (corrected_sums blk sm))) slate)"
    by (auto simp: getOutsiders_result split: sum.splits)
  from s r1 have "fst (sumRound env (calcRound env (height blk)) w) = Inr sm" by simp
  with True sl sc out show ?thesis by auto
qed

lemma innerTick_scope_events:
  assumes "innerTick_scope env blk bw w = (r, w')" and "trace w' = trace w @ evs"
  shows "(\<exists>n rd. RoundsModel_sumRound n rd \<in> set evs) = is_round_end env (height blk)"
proof (cases "is_round_end env (height blk)")
  case False
  with assms show ?thesis by (auto simp: innerTick_scope_not_finishing)
next
  case True
  obtain r1 w1 where s: "sumRound env (calcRound env (height blk)) w = (r1, w1)"
    by (cases "sumRound env (calcRound env (height blk)) w")
  note w1 = sumRound_world [OF s]
  have "\<exists>rest. trace w' = trace w1 @ rest"
  proof (cases r1)
    case (Inl e)
    with assms True s show ?thesis by (simp add: innerTick_scope_finishing)
  next
    case (Inr sm)
    obtain r2 w2 where g: "getOutsiders env (calcRound env (height blk))
        (roundDelegates (corrected_sums blk sm)) w1 = (r2, w2)"
      by (cases "getOutsiders env (calcRound env (height blk))
        (roundDelegates (corrected_sums blk sm)) w1")
    note w2 = getOutsiders_world [OF g]
    from assms True s Inr g have "w' = w2"
      by (cases r2) (simp_all add: innerTick_scope_finishing)
    with w2 show ?thesis by simp
  qed
  then obtain rest where "trace w' = trace w1 @ rest" ..
  with w1 assms(2) have "evs = LoggerDebug ''Summing round'' #
      RoundsModel_sumRound (activeDelegates env) (calcRound env (height blk)) # rest"
    by simp
  then have "RoundsModel_sumRound (activeDelegates env) (calcRound env (height blk)) \<in> set evs"
    by simp
  with True show ?thesis by blast
qed

lemma read_event_simps [simp]:
  "\<forall>ev \<in> set evs. read_event ev \<Longrightarrow> PerformOps ops \<notin> set evs"
  "\<forall>ev \<in> set evs. read_event ev \<Longrightarrow> BusMessage m \<notin> set evs"
  by auto

section \<open>The ways a tick ends\<close>

text \<open>The five ways a forward tick ends.\<close>

lemma tick_cases:
  obtains
    (scope_fails) e evs w1 where
      "innerTick_scope env blk False (appState_set_isTicking True w) = (Inl e, w1)"
      "trace w1 = trace (appState_set_isTicking True w) @ evs"
      "\<forall>ev \<in> set evs. read_event ev"
      "fst (tick env blk w) = Inl (rethrown e)"
      "new_trace w (tick env blk w) = AppStateSet_isTicking True # evs @ catch_events False e"
      "rounds_isTicking (snd (tick env blk w)) = (e = RejectedValueless)"
  | (ops_fail) sc evs w1 r where
      "innerTick_scope env blk False (appState_set_isTicking True w) = (Inr sc, w1)"
      "trace w1 = trace (appState_set_isTicking True w) @ evs"
      "\<forall>ev \<in> set evs. read_event ev"
      "performOps env (tick_ops env w sc) = Inl r"
      "fst (tick env blk w) = Inl (rethrown (thrown r))"
      "new_trace w (tick env blk w) =
         AppStateSet_isTicking True # evs @
           [LoggerDebug ''Performing forward tick'', PerformOps (tick_ops env w sc)] @
           catch_events False (thrown r)"
      "rounds_isTicking (snd (tick env blk w)) = (r = Valueless)"
  | (bus_fails) sc evs w1 r where
      "innerTick_scope env blk False (appState_set_isTicking True w) = (Inr sc, w1)"
      "trace w1 = trace (appState_set_isTicking True w) @ evs"
      "\<forall>ev \<in> set evs. read_event ev"
      "performOps env (tick_ops env w sc) = Inr ()"
      "finishRound sc"
      "bus_message env (FinishRound (round sc)) = Inl r"
      "fst (tick env blk w) = Inl (rethrown (thrown r))"
      "new_trace w (tick env blk w) =
         AppStateSet_isTicking True # evs @
           [LoggerDebug ''Performing forward tick'', PerformOps (tick_ops env w sc),
            BusMessage (FinishRound (round sc))] @
           catch_events False (thrown r)"
      "rounds_isTicking (snd (tick env blk w)) = (r = Valueless)"
  | (finished) sc evs w1 where
      "innerTick_scope env blk False (appState_set_isTicking True w) = (Inr sc, w1)"
      "trace w1 = trace (appState_set_isTicking True w) @ evs"
      "\<forall>ev \<in> set evs. read_event ev"
      "performOps env (tick_ops env w sc) = Inr ()"
      "finishRound sc"
      "bus_message env (FinishRound (round sc)) = Inr ()"
      "fst (tick env blk w) = Inr ()"
      "new_trace w (tick env blk w) =
         AppStateSet_isTicking True # evs @
           [LoggerDebug ''Performing forward tick'', PerformOps (tick_ops env w sc),
            BusMessage (FinishRound (round sc)), AppStateSet_isTicking False]"
      "rounds_isTicking (snd (tick env blk w)) = False"
  | (ticked) sc evs w1 where
      "innerTick_scope env blk False (appState_set_isTicking True w) = (Inr sc, w1)"
      "trace w1 = trace (appState_set_isTicking True w) @ evs"
      "\<forall>ev \<in> set evs. read_event ev"
      "performOps env (tick_ops env w sc) = Inr ()"
      "\<not> finishRound sc"
      "fst (tick env blk w) = Inr ()"
      "new_trace w (tick env blk w) =
         AppStateSet_isTicking True # evs @
           [LoggerDebug ''Performing forward tick'', PerformOps (tick_ops env w sc),
            AppStateSet_isTicking False]"
      "rounds_isTicking (snd (tick env blk w)) = False"
proof -
  obtain r w1 where s: "innerTick_scope env blk False (appState_set_isTicking True w) = (r, w1)"
    by (cases "innerTick_scope env blk False (appState_set_isTicking True w)")
  from innerTick_scope_world [OF s] obtain evs where
    snap: "rounds_snapshot w1 = rounds_snapshot w" and
    fl: "rounds_isTicking w1" and
    tr0: "trace w1 = trace (appState_set_isTicking True w) @ evs" and
    rd: "\<forall>ev \<in> set evs. read_event ev"
    by auto
  from tr0 have tr: "trace w1 = trace w @ AppStateSet_isTicking True # evs" by simp
  have ops: "tick_ops env w1 sc = tick_ops env w sc" for sc
    using snap by (simp add: tick_ops_def getSnapshotRounds_def)
  show thesis
  proof (cases r)
    case (Inl e)
    with s tr fl have "fst (tick env blk w) = Inl (rethrown e)"
      "new_trace w (tick env blk w) = AppStateSet_isTicking True # evs @ catch_events False e"
      "rounds_isTicking (snd (tick env blk w)) = (e = RejectedValueless)"
      by (simp_all add: tick_def innerTick_unfold innerTick_catch_eq new_trace_def)
    from scope_fails [OF s [unfolded Inl] tr0 rd this] show thesis .
  next
    case (Inr sc)
    note s' = s [unfolded Inr]
    show thesis
    proof (cases "performOps env (tick_ops env w sc)")
      case (Inl x)
      with s' tr fl ops have "fst (tick env blk w) = Inl (rethrown (thrown x))"
        "new_trace w (tick env blk w) =
         AppStateSet_isTicking True # evs @
           [LoggerDebug ''Performing forward tick'', PerformOps (tick_ops env w sc)] @
           catch_events False (thrown x)"
        "rounds_isTicking (snd (tick env blk w)) = (x = Valueless)"
        by (simp_all add: tick_def innerTick_unfold innerTick_catch_eq tick_txGenerator_unfold
              new_trace_def Let_def)
      from ops_fail [OF s' tr0 rd Inl this] show thesis .
    next
      case po: (Inr u)
      then have po': "performOps env (tick_ops env w sc) = Inr ()" by simp
      show thesis
      proof (cases "finishRound sc")
        case False
        with s' tr ops po have "fst (tick env blk w) = Inr ()"
          "new_trace w (tick env blk w) =
             AppStateSet_isTicking True # evs @
               [LoggerDebug ''Performing forward tick'', PerformOps (tick_ops env w sc),
                AppStateSet_isTicking False]"
          "rounds_isTicking (snd (tick env blk w)) = False"
          by (simp_all add: tick_def innerTick_unfold tick_txGenerator_unfold new_trace_def
                Let_def afterTx_default_def returnE_def)
        from ticked [OF s' tr0 rd po' False this] show thesis .
      next
        case True
        show thesis
        proof (cases "bus_message env (FinishRound (round sc))")
          case (Inl x)
          with s' tr fl ops po True have "fst (tick env blk w) = Inl (rethrown (thrown x))"
            "new_trace w (tick env blk w) =
               AppStateSet_isTicking True # evs @
                 [LoggerDebug ''Performing forward tick'', PerformOps (tick_ops env w sc),
                  BusMessage (FinishRound (round sc))] @
                 catch_events False (thrown x)"
            "rounds_isTicking (snd (tick env blk w)) = (x = Valueless)"
            by (simp_all add: tick_def innerTick_unfold innerTick_catch_eq
                  tick_txGenerator_unfold new_trace_def Let_def)
          from bus_fails [OF s' tr0 rd po' True Inl this] show thesis .
        next
          case (Inr u')
          then have bm: "bus_message env (FinishRound (round sc)) = Inr ()" by simp
          with s' tr ops po True have "fst (tick env blk w) = Inr ()"
            "new_trace w (tick env blk w) =
               AppStateSet_isTicking True # evs @
                 [LoggerDebug ''Performing forward tick'', PerformOps (tick_ops env w sc),
                  BusMessage (FinishRound (round sc)), AppStateSet_isTicking False]"
            "rounds_isTicking (snd (tick env blk w)) = False"
            by (simp_all add: tick_def innerTick_unfold tick_txGenerator_unfold new_trace_def
                  Let_def afterTx_default_def returnE_def)
          from finished [OF s' tr0 rd po' True bm this] show thesis .
        qed
      qed
    qed
  qed
qed

text \<open>The three ways a backward tick ends.\<close>

lemma backwardTick_cases:
  obtains
    (scope_fails) e evs w1 where
      "innerTick_scope env blk True
         (appState_set_isTicking True (emit (BusMessage (RoundBackwardTick blk)) w)) = (Inl e, w1)"
      "trace w1 =
         trace (appState_set_isTicking True (emit (BusMessage (RoundBackwardTick blk)) w)) @ evs"
      "\<forall>ev \<in> set evs. read_event ev"
      "fst (backwardTick env blk prev w) = Inl (rethrown e)"
      "new_trace w (backwardTick env blk prev w) =
         BusMessage (RoundBackwardTick blk) # AppStateSet_isTicking True # evs @
           catch_events True e"
      "rounds_isTicking (snd (backwardTick env blk prev w)) = (e = RejectedValueless)"
  | (ops_fail) sc evs w1 r where
      "innerTick_scope env blk True
         (appState_set_isTicking True (emit (BusMessage (RoundBackwardTick blk)) w)) = (Inr sc, w1)"
      "trace w1 =
         trace (appState_set_isTicking True (emit (BusMessage (RoundBackwardTick blk)) w)) @ evs"
      "\<forall>ev \<in> set evs. read_event ev"
      "performOps env (backwardTick_ops env sc) = Inl r"
      "fst (backwardTick env blk prev w) = Inl (rethrown (thrown r))"
      "new_trace w (backwardTick env blk prev w) =
         BusMessage (RoundBackwardTick blk) # AppStateSet_isTicking True # evs @
           [LoggerDebug ''Performing backward tick'', PerformOps (backwardTick_ops env sc)] @
           catch_events True (thrown r)"
      "rounds_isTicking (snd (backwardTick env blk prev w)) = (r = Valueless)"
  | (ticked) sc evs w1 where
      "innerTick_scope env blk True
         (appState_set_isTicking True (emit (BusMessage (RoundBackwardTick blk)) w)) = (Inr sc, w1)"
      "trace w1 =
         trace (appState_set_isTicking True (emit (BusMessage (RoundBackwardTick blk)) w)) @ evs"
      "\<forall>ev \<in> set evs. read_event ev"
      "performOps env (backwardTick_ops env sc) = Inr ()"
      "fst (backwardTick env blk prev w) = Inr ()"
      "new_trace w (backwardTick env blk prev w) =
         BusMessage (RoundBackwardTick blk) # AppStateSet_isTicking True # evs @
           [LoggerDebug ''Performing backward tick'', PerformOps (backwardTick_ops env sc),
            AppStateSet_isTicking False]"
      "rounds_isTicking (snd (backwardTick env blk prev w)) = False"
proof -
  let ?w0 = "appState_set_isTicking True (emit (BusMessage (RoundBackwardTick blk)) w)"
  obtain r w1 where s: "innerTick_scope env blk True ?w0 = (r, w1)"
    by (cases "innerTick_scope env blk True ?w0")
  from innerTick_scope_world [OF s] obtain evs where
    fl: "rounds_isTicking w1"
    and tr0: "trace w1 = trace ?w0 @ evs"
    and rd: "\<forall>ev \<in> set evs. read_event ev"
    by auto
  from tr0 have tr: "trace w1 =
      trace w @ BusMessage (RoundBackwardTick blk) # AppStateSet_isTicking True # evs"
    by simp
  show thesis
  proof (cases r)
    case (Inl e)
    with s tr fl have "fst (backwardTick env blk prev w) = Inl (rethrown e)"
      "new_trace w (backwardTick env blk prev w) =
         BusMessage (RoundBackwardTick blk) # AppStateSet_isTicking True # evs @
           catch_events True e"
      "rounds_isTicking (snd (backwardTick env blk prev w)) = (e = RejectedValueless)"
      by (simp_all add: backwardTick_def innerTick_unfold innerTick_catch_eq new_trace_def)
    from scope_fails [OF s [unfolded Inl] tr0 rd this] show thesis .
  next
    case (Inr sc)
    note s' = s [unfolded Inr]
    show thesis
    proof (cases "performOps env (backwardTick_ops env sc)")
      case (Inl x)
      with s' tr fl have "fst (backwardTick env blk prev w) = Inl (rethrown (thrown x))"
        "new_trace w (backwardTick env blk prev w) =
           BusMessage (RoundBackwardTick blk) # AppStateSet_isTicking True # evs @
             [LoggerDebug ''Performing backward tick'', PerformOps (backwardTick_ops env sc)] @
             catch_events True (thrown x)"
        "rounds_isTicking (snd (backwardTick env blk prev w)) = (x = Valueless)"
        by (simp_all add: backwardTick_def innerTick_unfold innerTick_catch_eq
              backwardTick_txGenerator_unfold new_trace_def Let_def)
      from ops_fail [OF s' tr0 rd Inl this] show thesis .
    next
      case (Inr u)
      then have po: "performOps env (backwardTick_ops env sc) = Inr ()" by simp
      with s' tr have "fst (backwardTick env blk prev w) = Inr ()"
        "new_trace w (backwardTick env blk prev w) =
           BusMessage (RoundBackwardTick blk) # AppStateSet_isTicking True # evs @
             [LoggerDebug ''Performing backward tick'', PerformOps (backwardTick_ops env sc),
              AppStateSet_isTicking False]"
        "rounds_isTicking (snd (backwardTick env blk prev w)) = False"
        by (simp_all add: backwardTick_def innerTick_unfold backwardTick_txGenerator_unfold
              new_trace_def Let_def afterTx_default_def returnE_def)
      from ticked [OF s' tr0 rd po this] show thesis .
    qed
  qed
qed

section \<open>Runs on the three-delegate chain\<close>

lemmas eval_defs =
  tick_def backwardTick_def innerTick_unfold innerTick_catch_def innerTick_scope_def
  sumRound_unfold getOutsiders_unfold
  genesis_fix_def tick_txGenerator_unfold backwardTick_txGenerator_unfold tick_ops_def
  backwardTick_ops_def afterTx_default_def returnE_def throwE_def bindE_def getSnapshotRounds_def
  emit_def appState_set_isTicking_def
  test_deps_def test_world_def test_block_def calcRound_spec_def lastInRound_spec_def
  toString_hex_def hex_byte_def hex_digit_def Let_def pk_a_def pk_b_def pk_c_def

lemma test_tick_3:
  "tick test_deps (test_block 3) test_world =
     (Inr (), test_world\<lparr>trace :=
        [AppStateSet_isTicking True, LoggerDebug ''Summing round'', RoundsModel_sumRound 3 1,
         GenerateDelegateList 3, LoggerDebug ''Performing forward tick'',
         PerformOps [''merge'', ''apply'', ''truncate'', ''mark''],
         BusMessage (FinishRound 1), AppStateSet_isTicking False]\<rparr>)"
  by (simp add: eval_defs small_exact)


lemma test_tick_failing_ops:
  "tick failing_ops_deps (test_block 3) test_world =
     (Inl (Rejected ''database failed''), test_world\<lparr>trace :=
        [AppStateSet_isTicking True, LoggerDebug ''Summing round'', RoundsModel_sumRound 3 1,
         GenerateDelegateList 3, LoggerDebug ''Performing forward tick'',
         PerformOps [''merge'', ''apply'', ''truncate'', ''mark''],
         LoggerWarn False (Rejected ''database failed''),
         AppStateSet_isTicking False]\<rparr>)"
  by (simp add: failing_ops_deps_def eval_defs small_exact)


lemma test_new_trace_3:
  "new_trace test_world (tick test_deps (test_block 3) test_world) =
     [AppStateSet_isTicking True, LoggerDebug ''Summing round'', RoundsModel_sumRound 3 1,
      GenerateDelegateList 3, LoggerDebug ''Performing forward tick'',
      PerformOps [''merge'', ''apply'', ''truncate'', ''mark''],
      BusMessage (FinishRound 1), AppStateSet_isTicking False]"
  unfolding new_trace_def test_tick_3 by (simp add: test_world_def)


lemma test_performed:
  "PerformOps [''merge'', ''apply'', ''truncate'', ''mark'']
     \<in> set (new_trace test_world (tick test_deps (test_block 3) test_world))"
  unfolding test_new_trace_3 by simp

lemma test_scope_finishing:
  "innerTick_scope test_deps (test_block 3) bw test_world = (Inr (finishing_scope bw), scoped_world)"
  by (simp add: eval_defs small_exact finishing_scope_def scoped_world_def)

lemma test_scope_genesis:
  "innerTick_scope test_deps (test_block 1) False test_world = (Inr genesis_scope, scoped_world)"
  by (simp add: eval_defs small_exact genesis_scope_def scoped_world_def)



lemma test_is_round_end:
  "is_round_end test_deps (height (test_block 3))"
  "is_round_end test_deps (height (test_block 1))"
  "\<not> is_round_end test_deps (height (test_block 2))"
  by (simp_all add: is_round_end_def test_deps_def test_block_def calcRound_spec_def)

section \<open>The bus of the spec\<close>




section \<open>Accounts facade\<close>

lemma take_address_missing:
  "(take_address l d = Inl e) = (e = ModuleError missing_msg \<and> \<not> truthy (address d) \<and> \<not> truthy (publicKey d))"
  by (auto simp: take_address_def Let_def)

lemma take_address_ok:
  "take_address l d = Inr p \<Longrightarrow> truthy (address d) \<or> truthy (publicKey d)"
  by (auto simp: take_address_def Let_def split: if_splits)

lemma take_address_derived:
  "\<not> truthy (address d) \<Longrightarrow> truthy (publicKey d) \<Longrightarrow>
   take_address l d = Inr (Some (al_generateAddressByPublicKey l (publicKey d)), d\<lparr>address := None\<rparr>)"
  by (simp add: take_address_def Let_def)

section \<open>Claims\<close>








text \<open>
  C3, as the code has it. The ops handed to \<open>performOps\<close> in a forward tick are those of
  \<open>mergeBlockGenerator\<close>, then those of \<open>apply\<close>, then the \<open>truncateBlocks\<close> op when the
  round is finishing and \<open>rounds.snapshot\<close> is positive and equal to the round, and
  \<open>markBlockId\<close> last; in a backward tick those of \<open>mergeBlockGenerator\<close>, then those of
  \<open>undo\<close>, then \<open>markBlockId\<close>, and the module adds no truncate op there. Every op
  list that a tick performs is built this way from the scope of that tick.
\<close>

theorem tick_ops_order:
  "tick_ops env w sc =
     mergeBlockGenerator env sc @ rl_apply env sc @
       (if finishRound sc \<and> (\<exists>n. rounds_snapshot w = Some n \<and> 0 < n \<and> n = round sc)
        then [truncateBlocks env sc] else []) @
       [markBlockId env sc] \<and>
   backwardTick_ops env sc =
     mergeBlockGenerator env sc @ rl_undo env sc @ [markBlockId env sc] \<and>
   (\<forall>ops. PerformOps ops \<in> set (new_trace w (tick env blk w)) \<longrightarrow>
      (\<exists>sc' w1. innerTick_scope env blk False (appState_set_isTicking True w) = (Inr sc', w1) \<and>
         ops = tick_ops env w sc')) \<and>
   (\<forall>ops. PerformOps ops \<in> set (new_trace w (backwardTick env blk prev w)) \<longrightarrow>
      (\<exists>sc' w1. innerTick_scope env blk True
           (appState_set_isTicking True (emit (BusMessage (RoundBackwardTick blk)) w)) =
             (Inr sc', w1) \<and>
         ops = backwardTick_ops env sc'))"
proof (intro conjI allI impI)
  show "tick_ops env w sc =
     mergeBlockGenerator env sc @ rl_apply env sc @
       (if finishRound sc \<and> (\<exists>n. rounds_snapshot w = Some n \<and> 0 < n \<and> n = round sc)
        then [truncateBlocks env sc] else []) @
       [markBlockId env sc]"
    by (rule tick_ops_unfold)
  show "backwardTick_ops env sc =
     mergeBlockGenerator env sc @ rl_undo env sc @ [markBlockId env sc]"
    by (simp add: backwardTick_ops_def Let_def)
next
  fix ops
  assume a: "PerformOps ops \<in> set (new_trace w (tick env blk w))"
  show "\<exists>sc' w1. innerTick_scope env blk False (appState_set_isTicking True w) = (Inr sc', w1) \<and>
         ops = tick_ops env w sc'"
  proof (cases rule: tick_cases [of env blk w])
    case (scope_fails e evs w1)
    with a show ?thesis by simp
  next
    case (ops_fail sc' evs w1 m)
    with a have "ops = tick_ops env w sc'" by simp
    with ops_fail(1) show ?thesis by blast
  next
    case (bus_fails sc' evs w1 m)
    with a have "ops = tick_ops env w sc'" by simp
    with bus_fails(1) show ?thesis by blast
  next
    case (finished sc' evs w1)
    with a have "ops = tick_ops env w sc'" by simp
    with finished(1) show ?thesis by blast
  next
    case (ticked sc' evs w1)
    with a have "ops = tick_ops env w sc'" by simp
    with ticked(1) show ?thesis by blast
  qed
next
  fix ops
  assume a: "PerformOps ops \<in> set (new_trace w (backwardTick env blk prev w))"
  show "\<exists>sc' w1. innerTick_scope env blk True
           (appState_set_isTicking True (emit (BusMessage (RoundBackwardTick blk)) w)) =
             (Inr sc', w1) \<and>
         ops = backwardTick_ops env sc'"
  proof (cases rule: backwardTick_cases [of env blk w prev])
    case (scope_fails e evs w1)
    with a show ?thesis by simp
  next
    case (ops_fail sc' evs w1 m)
    with a have "ops = backwardTick_ops env sc'" by simp
    with ops_fail(1) show ?thesis by blast
  next
    case (ticked sc' evs w1)
    with a have "ops = backwardTick_ops env sc'" by simp
    with ticked(1) show ?thesis by blast
  qed
qed

theorem tick_ops_order_witness:
  "PerformOps [''merge'', ''apply'', ''truncate'', ''mark'']
     \<in> set (new_trace test_world (tick test_deps (test_block 3) test_world)) \<and>
   finishRound (finishing_scope False) \<and>
   rounds_snapshot test_world = Some (round (finishing_scope False)) \<and>
   tick_ops test_deps test_world (finishing_scope False) =
     [''merge'', ''apply'', ''truncate'', ''mark''] \<and>
   backwardTick_ops test_deps (finishing_scope True) = [''merge'', ''undo'', ''mark'']"
proof -
  have f: "finishRound (finishing_scope False)"
    "rounds_snapshot test_world = Some (round (finishing_scope False))"
    "0 < round (finishing_scope False)"
    by (simp_all add: finishing_scope_def test_world_def)
  have p: "mergeBlockGenerator test_deps (finishing_scope False) = [''merge'']"
    "rl_apply test_deps (finishing_scope False) = [''apply'']"
    "truncateBlocks test_deps (finishing_scope False) = ''truncate''"
    "markBlockId test_deps (finishing_scope False) = ''mark''"
    "mergeBlockGenerator test_deps (finishing_scope True) = [''merge'']"
    "rl_undo test_deps (finishing_scope True) = [''undo'']"
    "markBlockId test_deps (finishing_scope True) = ''mark''"
    by (simp_all add: test_deps_def finishing_scope_def)
  from tick_ops_order [of test_deps test_world "finishing_scope False" "test_block 3" "test_block 2"]
  have "tick_ops test_deps test_world (finishing_scope False) =
     [''merge'', ''apply'', ''truncate'', ''mark'']"
    using f p by simp
  moreover
  from tick_ops_order [of test_deps test_world "finishing_scope True" "test_block 3" "test_block 2"]
  have "backwardTick_ops test_deps (finishing_scope True) = [''merge'', ''undo'', ''mark'']"
    using p by simp
  ultimately show ?thesis using f test_performed by simp
qed

text \<open>
  C3 as claimed puts \<open>truncate_blocks\<close> last, after \<open>mark_block_id\<close>. On the
  three-delegate chain, in snapshot mode, the tick of the last block of round 1 performs
  merge, apply, truncate, mark, and not merge, apply, mark, truncate.
\<close>

theorem truncate_last_counterexample:
  "PerformOps [''merge'', ''apply'', ''truncate'', ''mark'']
     \<in> set (new_trace test_world (tick test_deps (test_block 3) test_world)) \<and>
   PerformOps [''merge'', ''apply'', ''mark'', ''truncate'']
     \<notin> set (new_trace test_world (tick test_deps (test_block 3) test_world))"
  unfolding test_new_trace_3 by simp

text \<open>
  C4. When the block finishes its round, \<open>roundOutsiders\<close> is the slate generated for
  height \<open>lastInRound(round)\<close> without the public keys of \<open>roundDelegates\<close>, each key left
  mapped to its address, in slate order; when it does not, \<open>roundOutsiders\<close> is \<open>null\<close>.
\<close>

theorem outsiders_are_slate_minus_forgers:
  "innerTick_scope env blk bw w = (Inr sc, w') \<Longrightarrow>
     (if is_round_end env (height blk)
      then \<exists>s slate. roundSums sc = Some s \<and>
             generateDelegateList env (lastInRound env (calcRound env (height blk))) = Inr slate \<and>
             roundOutsiders sc =
               Some (map (generateAddressByPublicKey env)
                       (filter (\<lambda>pk. pk \<notin> set (roundDelegates s)) slate))
      else roundOutsiders sc = None)"
  using innerTick_scope_sums [of env blk bw w sc w']
  by (auto split: if_splits)

theorem outsiders_are_slate_minus_forgers_witness:
  "innerTick_scope test_deps (test_block 3) False test_world =
     (Inr (finishing_scope False), scoped_world) \<and>
   is_round_end test_deps (height (test_block 3)) \<and>
   generateDelegateList test_deps (lastInRound test_deps (calcRound test_deps (height (test_block 3))))
     = Inr [pk_a, pk_b, pk_c] \<and>
   roundDelegates \<lparr>roundFees = 10, roundRewards = [1, 1, 1], roundDelegates = [pk_a, pk_b, pk_a]\<rparr>
     = [pk_a, pk_b, pk_a] \<and>
   roundOutsiders (finishing_scope False) = Some [generateAddressByPublicKey test_deps pk_c]"
proof -
  have h: "innerTick_scope test_deps (test_block 3) False test_world =
     (Inr (finishing_scope False), scoped_world)"
    by (rule test_scope_finishing)
  have g: "generateDelegateList test_deps
      (lastInRound test_deps (calcRound test_deps (height (test_block 3)))) = Inr [pk_a, pk_b, pk_c]"
    by (simp add: test_deps_def)
  have r: "roundSums (finishing_scope False) =
      Some \<lparr>roundFees = 10, roundRewards = [1, 1, 1], roundDelegates = [pk_a, pk_b, pk_a]\<rparr>"
    by (simp add: finishing_scope_def)
  have d: "filter (\<lambda>pk. pk \<notin> set [pk_a, pk_b, pk_a]) [pk_a, pk_b, pk_c] = [pk_c]"
    by (simp add: pk_a_def pk_b_def pk_c_def)
  from outsiders_are_slate_minus_forgers [OF h] test_is_round_end(1) g r
  have "roundOutsiders (finishing_scope False) = Some [generateAddressByPublicKey test_deps pk_c]"
    using d by auto
  with h g test_is_round_end(1) show ?thesis by simp
qed

text \<open>
  C5. In a round-finishing tick the scope carries the sums that \<open>sumRound\<close> returned,
  except at height 1 when the returned \<open>roundDelegates\<close> has not exactly one entry: then it
  carries fees 0, rewards \<open>[0]\<close> and the generator of the block as only delegate. When the
  block does not finish a round there are no sums.
\<close>

theorem genesis_correction:
  "innerTick_scope env blk bw w = (Inr sc, w') \<Longrightarrow>
     (if is_round_end env (height blk)
      then \<exists>s. fst (sumRound env (calcRound env (height blk)) w) = Inr s \<and>
             roundSums sc =
               Some (if height blk = 1 \<and> length (roundDelegates s) \<noteq> 1
                     then \<lparr>roundFees = 0, roundRewards = [0],
                           roundDelegates = [generatorPublicKey blk]\<rparr>
                     else s)
      else roundSums sc = None)"
  using innerTick_scope_sums [of env blk bw w sc w']
  by (auto simp: corrected_sums_def split: if_splits)

theorem genesis_correction_witness:
  "innerTick_scope test_deps (test_block 1) False test_world = (Inr genesis_scope, scoped_world) \<and>
   is_round_end test_deps (height (test_block 1)) \<and>
   fst (sumRound test_deps (calcRound test_deps (height (test_block 1))) test_world) =
     Inr \<lparr>roundFees = 10, roundRewards = [1, 1, 1], roundDelegates = [pk_a, pk_b, pk_a]\<rparr> \<and>
   roundSums genesis_scope =
     Some \<lparr>roundFees = 0, roundRewards = [0],
           roundDelegates = [generatorPublicKey (test_block 1)]\<rparr>"
proof -
  have h: "innerTick_scope test_deps (test_block 1) False test_world =
      (Inr genesis_scope, scoped_world)"
    by (rule test_scope_genesis)
  have s: "fst (sumRound test_deps (calcRound test_deps (height (test_block 1))) test_world) =
     Inr \<lparr>roundFees = 10, roundRewards = [1, 1, 1], roundDelegates = [pk_a, pk_b, pk_a]\<rparr>"
    by (simp add: sumRound_unfold test_deps_def small_exact)
  from genesis_correction [OF h] test_is_round_end(2) s h show ?thesis
    by (simp add: test_block_def)
qed

text \<open>
  C6. The scope built for a block has \<open>finishRound\<close> exactly when
  \<open>calcRound(height + 1)\<close> differs from \<open>calcRound(height)\<close> or the height is 1, and its
  round is \<open>calcRound(height)\<close>; \<open>tick\<close> and \<open>backwardTick\<close> sum the round exactly in that
  case.
\<close>

theorem round_end_detection:
  "(innerTick_scope env blk bw w = (Inr sc, w') \<longrightarrow>
      finishRound sc = is_round_end env (height blk) \<and> round sc = calcRound env (height blk)) \<and>
   ((\<exists>n r. RoundsModel_sumRound n r \<in> set (new_trace w (tick env blk w))) =
      is_round_end env (height blk)) \<and>
   ((\<exists>n r. RoundsModel_sumRound n r \<in> set (new_trace w (backwardTick env blk prev w))) =
      is_round_end env (height blk))"
proof (intro conjI impI)
  assume "innerTick_scope env blk bw w = (Inr sc, w')"
  then show "finishRound sc = is_round_end env (height blk)" "round sc = calcRound env (height blk)"
    by (rule innerTick_scope_fields)+
next
  show "(\<exists>n r. RoundsModel_sumRound n r \<in> set (new_trace w (tick env blk w))) =
      is_round_end env (height blk)"
  proof (cases rule: tick_cases [of env blk w])
    case (scope_fails e evs w1)
    from innerTick_scope_events [OF scope_fails(1,2)] scope_fails(5) show ?thesis by simp
  next
    case (ops_fail sc evs w1 m)
    from innerTick_scope_events [OF ops_fail(1,2)] ops_fail(6) show ?thesis by simp
  next
    case (bus_fails sc evs w1 m)
    from innerTick_scope_events [OF bus_fails(1,2)] bus_fails(8) show ?thesis by simp
  next
    case (finished sc evs w1)
    from innerTick_scope_events [OF finished(1,2)] finished(8) show ?thesis by simp
  next
    case (ticked sc evs w1)
    from innerTick_scope_events [OF ticked(1,2)] ticked(7) show ?thesis by simp
  qed
next
  show "(\<exists>n r. RoundsModel_sumRound n r \<in> set (new_trace w (backwardTick env blk prev w))) =
      is_round_end env (height blk)"
  proof (cases rule: backwardTick_cases [of env blk w prev])
    case (scope_fails e evs w1)
    from innerTick_scope_events [OF scope_fails(1,2)] scope_fails(5) show ?thesis by simp
  next
    case (ops_fail sc evs w1 m)
    from innerTick_scope_events [OF ops_fail(1,2)] ops_fail(6) show ?thesis by simp
  next
    case (ticked sc evs w1)
    from innerTick_scope_events [OF ticked(1,2)] ticked(6) show ?thesis by simp
  qed
qed

theorem round_end_detection_witness:
  "innerTick_scope test_deps (test_block 3) False test_world =
     (Inr (finishing_scope False), scoped_world) \<and>
   finishRound (finishing_scope False) = is_round_end test_deps (height (test_block 3)) \<and>
   round (finishing_scope False) = calcRound test_deps (height (test_block 3)) \<and>
   is_round_end test_deps (height (test_block 3))"
proof -
  have h: "innerTick_scope test_deps (test_block 3) False test_world =
     (Inr (finishing_scope False), scoped_world)"
    by (rule test_scope_finishing)
  from round_end_detection [of test_deps "test_block 3" False test_world
      "finishing_scope False" scoped_world "test_block 2"] h test_is_round_end(1)
  show ?thesis by blast
qed

text \<open>
  C7, as the code has it. \<open>sumRound\<close> passes the fees and every reward through
  \<open>parseFloat\<close> and \<open>Math.floor\<close>. Amounts of magnitude below \<open>2 ^ 53\<close> come out equal
  to the persisted integers, and the delegates are passed on unchanged.
\<close>

theorem sumRound_exact_within_53_bits:
  "model_sumRound env (activeDelegates env) rnd = Inr res \<Longrightarrow>
   \<bar>fees res\<bar> < 2 ^ 53 \<Longrightarrow> (\<forall>reward \<in> set (rewards res). \<bar>reward\<bar> < 2 ^ 53) \<Longrightarrow>
   fst (sumRound env rnd w) =
     Inr \<lparr>roundFees = fees res, roundRewards = rewards res, roundDelegates = delegates res\<rparr>"
proof -
  assume m: "model_sumRound env (activeDelegates env) rnd = Inr res"
    and f: "\<bar>fees res\<bar> < 2 ^ 53"
    and r: "\<forall>reward \<in> set (rewards res). \<bar>reward\<bar> < 2 ^ 53"
  from r have "map (\<lambda>reward. Math_floor (parseFloat reward)) (rewards res) = rewards res"
    by (induction "rewards res") (simp_all add: floor_parse map_idI)
  with m f show ?thesis by (simp add: sumRound_unfold floor_parse)
qed

theorem sumRound_exact_within_53_bits_witness:
  "model_sumRound test_deps (activeDelegates test_deps) 1 =
     Inr \<lparr>fees = 10, rewards = [1, 1, 1], delegates = [pk_a, pk_b, pk_a]\<rparr> \<and>
   \<bar>10 :: int\<bar> < 2 ^ 53 \<and> \<bar>1 :: int\<bar> < 2 ^ 53 \<and>
   fst (sumRound test_deps 1 test_world) =
     Inr \<lparr>roundFees = 10, roundRewards = [1, 1, 1], roundDelegates = [pk_a, pk_b, pk_a]\<rparr>"
proof -
  have m: "model_sumRound test_deps (activeDelegates test_deps) 1 =
     Inr \<lparr>fees = 10, rewards = [1, 1, 1], delegates = [pk_a, pk_b, pk_a]\<rparr>"
    by (simp add: test_deps_def)
  from sumRound_exact_within_53_bits [OF m, of test_world] m show ?thesis by simp
qed

text \<open>
  C7 as claimed holds for every amount. Persisted round fees of \<open>2 ^ 53 + 1\<close> reach the
  round ops as \<open>2 ^ 53\<close>.
\<close>

theorem sumRound_rounds_large_fees_counterexample:
  "model_sumRound big_fee_deps (activeDelegates big_fee_deps) 1 =
     Inr \<lparr>fees = 9007199254740993, rewards = [1, 1, 1], delegates = [pk_a, pk_b, pk_a]\<rparr> \<and>
   fst (sumRound big_fee_deps 1 test_world) =
     Inr \<lparr>roundFees = 9007199254740992, roundRewards = [1, 1, 1],
           roundDelegates = [pk_a, pk_b, pk_a]\<rparr>"
proof -
  have "nearest_double 9007199254740993 = 9007199254740992"
    by (simp add: nearest_double_def bit_length_numeral Let_def)
  then have "Math_floor (parseFloat 9007199254740993) = 9007199254740992"
    by (simp add: Math_floor_def parseFloat_def)
  then show ?thesis
    by (simp add: sumRound_unfold big_fee_deps_def test_deps_def small_exact)
qed





text \<open>
  C9. Height 1 makes the block round-finishing, so \<open>roundSums\<close> comes from \<open>sumRound\<close>
  and is not \<open>null\<close> where the correction reads \<open>roundSums.roundDelegates\<close>: building the
  scope never throws a \<open>TypeError\<close>, and neither do \<open>tick\<close> and \<open>backwardTick\<close>.
\<close>

theorem genesis_branch_null_safe:
  "(height blk = 1 \<longrightarrow> is_round_end env (height blk)) \<and>
   fst (innerTick_scope env blk bw w) \<noteq> Inl TypeError \<and>
   fst (tick env blk w) \<noteq> Inl TypeError \<and>
   fst (backwardTick env blk prev w) \<noteq> Inl TypeError"
proof (intro conjI impI)
  assume "height blk = 1"
  then show "is_round_end env (height blk)" by (simp add: is_round_end_def)
next
  show "fst (innerTick_scope env blk bw w) \<noteq> Inl TypeError"
    using innerTick_scope_not_TypeError [of env blk bw w]
    by (cases "innerTick_scope env blk bw w") auto
next
  show "fst (tick env blk w) \<noteq> Inl TypeError"
  proof (cases rule: tick_cases [of env blk w])
    case (scope_fails e evs w1)
    with innerTick_scope_not_TypeError [of env blk False "appState_set_isTicking True w" w1]
    show ?thesis by auto
  qed simp_all
next
  show "fst (backwardTick env blk prev w) \<noteq> Inl TypeError"
  proof (cases rule: backwardTick_cases [of env blk w prev])
    case (scope_fails e evs w1)
    with innerTick_scope_not_TypeError [of env blk True
        "appState_set_isTicking True (emit (BusMessage (RoundBackwardTick blk)) w)" w1]
    show ?thesis by auto
  qed simp_all
qed

theorem genesis_branch_null_safe_witness:
  "height (test_block 1) = 1 \<and> is_round_end test_deps (height (test_block 1)) \<and>
   fst (innerTick_scope test_deps (test_block 1) False test_world) = Inr genesis_scope \<and>
   fst (innerTick_scope test_deps (test_block 1) False test_world) \<noteq> Inl TypeError"
proof -
  have h: "height (test_block 1) = 1" by (simp add: test_block_def)
  have g: "fst (innerTick_scope test_deps (test_block 1) False test_world) = Inr genesis_scope"
    unfolding test_scope_genesis by simp
  from genesis_branch_null_safe [of "test_block 1" test_deps False test_world "test_block 1"] h g
  show ?thesis by blast
qed

text \<open>
  C10. \<open>setAccountAndGet\<close>, \<open>mergeAccountAndGetSQL\<close> and \<open>mergeAccountAndGet\<close> throw
  \<open>Missing address and public key\<close> exactly when the argument has neither a truthy
  \<open>address\<close> nor a truthy \<open>publicKey\<close> (\<open>undefined\<close> and the empty string are falsy).
  With no address and a public key, the address is \<open>generateAddressByPublicKey(publicKey)\<close>
  and the account logic is called on that address with the argument less its \<open>address\<close>.
\<close>

theorem accounts_address_precondition:
  "((fst (setAccountAndGet l d s) = Inl (ModuleError missing_msg)) \<longleftrightarrow>
      (\<not> truthy (address d) \<and> \<not> truthy (publicKey d))) \<and>
   ((mergeAccountAndGetSQL l d = Inl (ModuleError missing_msg)) \<longleftrightarrow>
      (\<not> truthy (address d) \<and> \<not> truthy (publicKey d))) \<and>
   ((fst (mergeAccountAndGet l d s) = Inl (ModuleError missing_msg)) \<longleftrightarrow>
      (\<not> truthy (address d) \<and> \<not> truthy (publicKey d))) \<and>
   (\<not> truthy (address d) \<and> truthy (publicKey d) \<longrightarrow>
      (let a = Some (al_generateAddressByPublicKey l (publicKey d)); d' = d\<lparr>address := None\<rparr>
       in setAccountAndGet l d s =
            (case al_set l a d' s of
               Inl m \<Rightarrow> (Inl (Rejected m), s)
             | Inr s' \<Rightarrow> (case al_get l a s' of
                            Inl m \<Rightarrow> (Inl (Rejected m), s')
                          | Inr acc \<Rightarrow> (Inr acc, s'))) \<and>
          mergeAccountAndGetSQL l d =
            (case al_merge_sql l a d' of Inl m \<Rightarrow> Inl (Rejected m) | Inr sql \<Rightarrow> Inr sql) \<and>
          mergeAccountAndGet l d s =
            (case al_merge l a d' s of
               Inl m \<Rightarrow> (Inl (Rejected m), s)
             | Inr (acc, s') \<Rightarrow> (Inr acc, s'))))"
proof (intro conjI impI)
  show "(fst (setAccountAndGet l d s) = Inl (ModuleError missing_msg)) \<longleftrightarrow>
      (\<not> truthy (address d) \<and> \<not> truthy (publicKey d))"
    by (cases "take_address l d")
       (auto simp: setAccountAndGet_def take_address_missing dest: take_address_ok
             split: sum.splits prod.splits)
  show "(mergeAccountAndGetSQL l d = Inl (ModuleError missing_msg)) \<longleftrightarrow>
      (\<not> truthy (address d) \<and> \<not> truthy (publicKey d))"
    by (cases "take_address l d")
       (auto simp: mergeAccountAndGetSQL_def take_address_missing dest: take_address_ok
             split: sum.splits prod.splits)
  show "(fst (mergeAccountAndGet l d s) = Inl (ModuleError missing_msg)) \<longleftrightarrow>
      (\<not> truthy (address d) \<and> \<not> truthy (publicKey d))"
    by (cases "take_address l d")
       (auto simp: mergeAccountAndGet_def take_address_missing dest: take_address_ok
             split: sum.splits prod.splits)
next
  assume h: "\<not> truthy (address d) \<and> truthy (publicKey d)"
  then have t: "take_address l d =
      Inr (Some (al_generateAddressByPublicKey l (publicKey d)), d\<lparr>address := None\<rparr>)"
    by (simp add: take_address_derived)
  show "let a = Some (al_generateAddressByPublicKey l (publicKey d)); d' = d\<lparr>address := None\<rparr>
       in setAccountAndGet l d s =
            (case al_set l a d' s of
               Inl m \<Rightarrow> (Inl (Rejected m), s)
             | Inr s' \<Rightarrow> (case al_get l a s' of
                            Inl m \<Rightarrow> (Inl (Rejected m), s')
                          | Inr acc \<Rightarrow> (Inr acc, s'))) \<and>
          mergeAccountAndGetSQL l d =
            (case al_merge_sql l a d' of Inl m \<Rightarrow> Inl (Rejected m) | Inr sql \<Rightarrow> Inr sql) \<and>
          mergeAccountAndGet l d s =
            (case al_merge l a d' s of
               Inl m \<Rightarrow> (Inl (Rejected m), s)
             | Inr (acc, s') \<Rightarrow> (Inr acc, s'))"
    by (simp add: Let_def setAccountAndGet_def mergeAccountAndGetSQL_def mergeAccountAndGet_def t)
qed

theorem accounts_address_precondition_witness:
  "\<not> truthy (address (test_data None (Some ''ab''))) \<and>
   truthy (publicKey (test_data None (Some ''ab''))) \<and>
   setAccountAndGet test_account_logic (test_data None (Some ''ab'')) [] = (Inr 5, [(''abR'', 5)]) \<and>
   mergeAccountAndGetSQL test_account_logic (test_data None (Some ''ab'')) = Inr ''update abR'' \<and>
   mergeAccountAndGet test_account_logic (test_data None (Some ''ab'')) [] = (Inr 5, [(''abR'', 5)]) \<and>
   fst (setAccountAndGet test_account_logic (test_data None (Some ''ab'')) []) \<noteq> Inl (ModuleError missing_msg)"
  using accounts_address_precondition [of test_account_logic "test_data None (Some ''ab'')" "[]"]
  by (simp add: test_data_def test_account_logic_def Let_def)

end
